theory Spec2Isabelle
  imports Complex_Main
begin

section \<open>The collaborators of the reporters\<close>

text \<open>
  \<^verbatim>\<open>reporter.py\<close> reads three kinds of foreign objects. An action exposes the captured
  streams \<^verbatim>\<open>out\<close> and \<^verbatim>\<open>err\<close> (a string, or \<^verbatim>\<open>None\<close>); a task exposes
  \<^verbatim>\<open>name\<close>, \<^verbatim>\<open>title()\<close> and \<^verbatim>\<open>actions\<close>; the failure object exposes
  \<^verbatim>\<open>get_name()\<close> and \<^verbatim>\<open>get_msg()\<close>. The reporters never write to them, so they are
  passed by value.
\<close>

record action =
  a_out :: "string option"
  a_err :: "string option"

record task =
  name :: string
  title :: string
  actions :: "action list"

record failure_info =
  get_name :: string
  get_msg :: string

text \<open>
  Python's truth value of an optional string, as tested by \<^verbatim>\<open>if a.out\<close>: \<^verbatim>\<open>None\<close> and
  the empty string are false.
\<close>

fun truthy :: "string option \<Rightarrow> bool" where
  "truthy None = False"
| "truthy (Some s) = (s \<noteq> [])"

text \<open>
  \<^verbatim>\<open>"".join([a.out for a in task.actions if a.out])\<close> and the same for \<^verbatim>\<open>err\<close>.
\<close>

fun join_captured :: "(action \<Rightarrow> string option) \<Rightarrow> action list \<Rightarrow> string" where
  "join_captured sel [] = []"
| "join_captured sel (a # as) =
     (case sel a of
        None \<Rightarrow> join_captured sel as
      | Some s \<Rightarrow> (if truthy (Some s) then s @ join_captured sel as
                  else join_captured sel as))"

text \<open>
  The same text in the words of the specification, written with the list functions of
  the library and not with the loop above: the concatenation, in the order of the
  actions, of the captured stream of every action that produced any (a stream that is
  neither absent nor empty).
\<close>

definition concat_captured :: "(action \<Rightarrow> string option) \<Rightarrow> action list \<Rightarrow> string" where
  "concat_captured sel as =
     concat (map (\<lambda>a. case sel a of None \<Rightarrow> [] | Some s \<Rightarrow> s)
               (filter (\<lambda>a. sel a \<noteq> None \<and> sel a \<noteq> Some []) as))"

text \<open>The exceptions the module can raise by itself.\<close>

datatype py_error = KeyError string | TypeError

text \<open>
  The seven lifecycle calls of the scheduler, as values, so that a run is a list.
\<close>

datatype event =
    StartTask task
  | ExecuteTask task
  | AddFailure task failure_info
  | AddSuccess task
  | SkipUptodate task
  | CleanupError failure_info
  | CompleteRun

section \<open>FakeReporter\<close>

text \<open>
  The log holds Python tuples: a pair of the kind and the task, or, for
  \<^verbatim>\<open>cleanup_error\<close>, the one-element tuple of the kind alone.
\<close>

datatype py_tuple = Tuple1 string | Tuple2 string task

record FakeReporter =
  fake_log :: "py_tuple list"

definition FakeReporter_init :: FakeReporter where
  "FakeReporter_init = \<lparr>fake_log = []\<rparr>"

definition FakeReporter_start_task :: "task \<Rightarrow> FakeReporter \<Rightarrow> FakeReporter" where
  "FakeReporter_start_task t s = s\<lparr>fake_log := fake_log s @ [Tuple2 ''start'' t]\<rparr>"

definition FakeReporter_execute_task :: "task \<Rightarrow> FakeReporter \<Rightarrow> FakeReporter" where
  "FakeReporter_execute_task t s = s\<lparr>fake_log := fake_log s @ [Tuple2 ''execute'' t]\<rparr>"

definition FakeReporter_add_failure ::
  "task \<Rightarrow> failure_info \<Rightarrow> FakeReporter \<Rightarrow> FakeReporter" where
  "FakeReporter_add_failure t e s = s\<lparr>fake_log := fake_log s @ [Tuple2 ''fail'' t]\<rparr>"

definition FakeReporter_add_success :: "task \<Rightarrow> FakeReporter \<Rightarrow> FakeReporter" where
  "FakeReporter_add_success t s = s\<lparr>fake_log := fake_log s @ [Tuple2 ''success'' t]\<rparr>"

definition FakeReporter_skip_uptodate :: "task \<Rightarrow> FakeReporter \<Rightarrow> FakeReporter" where
  "FakeReporter_skip_uptodate t s = s\<lparr>fake_log := fake_log s @ [Tuple2 ''skip'' t]\<rparr>"

definition FakeReporter_cleanup_error :: "failure_info \<Rightarrow> FakeReporter \<Rightarrow> FakeReporter" where
  "FakeReporter_cleanup_error e s = s\<lparr>fake_log := fake_log s @ [Tuple1 ''cleanup_error'']\<rparr>"

definition FakeReporter_complete_run :: "FakeReporter \<Rightarrow> FakeReporter" where
  "FakeReporter_complete_run s = s"

fun FakeReporter_call :: "event \<Rightarrow> FakeReporter \<Rightarrow> FakeReporter" where
  "FakeReporter_call (StartTask t) s = FakeReporter_start_task t s"
| "FakeReporter_call (ExecuteTask t) s = FakeReporter_execute_task t s"
| "FakeReporter_call (AddFailure t e) s = FakeReporter_add_failure t e s"
| "FakeReporter_call (AddSuccess t) s = FakeReporter_add_success t s"
| "FakeReporter_call (SkipUptodate t) s = FakeReporter_skip_uptodate t s"
| "FakeReporter_call (CleanupError e) s = FakeReporter_cleanup_error e s"
| "FakeReporter_call CompleteRun s = FakeReporter_complete_run s"

fun FakeReporter_run :: "event list \<Rightarrow> FakeReporter \<Rightarrow> FakeReporter" where
  "FakeReporter_run [] s = s"
| "FakeReporter_run (ev # evs) s = FakeReporter_run evs (FakeReporter_call ev s)"

text \<open>
  What section 4.4 of the specification expects each call to leave in the log: one
  tuple of the kind and the task (no task for \<^verbatim>\<open>cleanup_error\<close>), and nothing for
  \<^verbatim>\<open>complete_run\<close>.
\<close>

fun expected_record :: "event \<Rightarrow> py_tuple list" where
  "expected_record (StartTask t) = [Tuple2 ''start'' t]"
| "expected_record (ExecuteTask t) = [Tuple2 ''execute'' t]"
| "expected_record (AddFailure t e) = [Tuple2 ''fail'' t]"
| "expected_record (AddSuccess t) = [Tuple2 ''success'' t]"
| "expected_record (SkipUptodate t) = [Tuple2 ''skip'' t]"
| "expected_record (CleanupError e) = [Tuple1 ''cleanup_error'']"
| "expected_record CompleteRun = []"

section \<open>ConsoleReporter\<close>

text \<open>
  The failure list holds the dictionaries \<^verbatim>\<open>{'task': task, 'exception': exception}\<close>.
  The two channels \<^verbatim>\<open>sys.stdout\<close> and \<^verbatim>\<open>sys.stderr\<close> are part of the state: each is the
  text written to it so far. The statement \<^verbatim>\<open>print x\<close> writes \<^verbatim>\<open>x\<close> and a newline to
  \<^verbatim>\<open>sys.stdout\<close>; \<^verbatim>\<open>print "---", x\<close> separates its two items by a space.
\<close>

record failure_entry =
  f_task :: task
  f_exception :: failure_info

record ConsoleReporter =
  failures :: "failure_entry list"
  show_out :: bool
  show_err :: bool
  stdout :: string
  stderr :: string

definition sys_stdout_write :: "string \<Rightarrow> ConsoleReporter \<Rightarrow> ConsoleReporter" where
  "sys_stdout_write txt s = s\<lparr>stdout := stdout s @ txt\<rparr>"

definition sys_stderr_write :: "string \<Rightarrow> ConsoleReporter \<Rightarrow> ConsoleReporter" where
  "sys_stderr_write txt s = s\<lparr>stderr := stderr s @ txt\<rparr>"

definition ConsoleReporter_init :: "bool \<Rightarrow> bool \<Rightarrow> ConsoleReporter" where
  "ConsoleReporter_init so se =
     \<lparr>failures = [], show_out = so, show_err = se, stdout = [], stderr = []\<rparr>"

definition ConsoleReporter_start_task :: "task \<Rightarrow> ConsoleReporter \<Rightarrow> ConsoleReporter" where
  "ConsoleReporter_start_task t s = s"

definition ConsoleReporter_execute_task :: "task \<Rightarrow> ConsoleReporter \<Rightarrow> ConsoleReporter" where
  "ConsoleReporter_execute_task t s = sys_stdout_write (title t @ ''\<newline>'') s"

definition ConsoleReporter_add_failure ::
  "task \<Rightarrow> failure_info \<Rightarrow> ConsoleReporter \<Rightarrow> ConsoleReporter" where
  "ConsoleReporter_add_failure t e s =
     s\<lparr>failures := failures s @ [\<lparr>f_task = t, f_exception = e\<rparr>]\<rparr>"

definition ConsoleReporter_add_success :: "task \<Rightarrow> ConsoleReporter \<Rightarrow> ConsoleReporter" where
  "ConsoleReporter_add_success t s = s"

definition ConsoleReporter_skip_uptodate :: "task \<Rightarrow> ConsoleReporter \<Rightarrow> ConsoleReporter" where
  "ConsoleReporter_skip_uptodate t s =
     sys_stdout_write (''---'' @ '' '' @ title t @ ''\<newline>'') s"

definition ConsoleReporter_cleanup_error ::
  "failure_info \<Rightarrow> ConsoleReporter \<Rightarrow> ConsoleReporter" where
  "ConsoleReporter_cleanup_error e s = sys_stderr_write (get_msg e) s"

text \<open>The body of the loop of \<^verbatim>\<open>complete_run\<close>, one write after the other.\<close>

definition report_failure :: "failure_entry \<Rightarrow> ConsoleReporter \<Rightarrow> ConsoleReporter" where
  "report_failure result s =
     (let s1 = sys_stderr_write (replicate 40 (CHR ''#'') @ ''\<newline>'') s;
          s2 = sys_stderr_write
                 (get_name (f_exception result) @ '': '' @ name (f_task result) @ ''\<newline>'') s1;
          s3 = sys_stderr_write (get_msg (f_exception result)) s2;
          s4 = sys_stderr_write ''\<newline>'' s3;
          t = f_task result;
          s5 = (if show_out s4
                then sys_stderr_write (join_captured a_out (actions t) @ ''\<newline>'') s4
                else s4);
          s6 = (if show_err s5
                then sys_stderr_write (join_captured a_err (actions t) @ ''\<newline>'') s5
                else s5)
      in s6)"

fun report_failures :: "failure_entry list \<Rightarrow> ConsoleReporter \<Rightarrow> ConsoleReporter" where
  "report_failures [] s = s"
| "report_failures (result # rest) s = report_failures rest (report_failure result s)"

definition ConsoleReporter_complete_run :: "ConsoleReporter \<Rightarrow> ConsoleReporter" where
  "ConsoleReporter_complete_run s = report_failures (failures s) s"

fun ConsoleReporter_call :: "event \<Rightarrow> ConsoleReporter \<Rightarrow> ConsoleReporter" where
  "ConsoleReporter_call (StartTask t) s = ConsoleReporter_start_task t s"
| "ConsoleReporter_call (ExecuteTask t) s = ConsoleReporter_execute_task t s"
| "ConsoleReporter_call (AddFailure t e) s = ConsoleReporter_add_failure t e s"
| "ConsoleReporter_call (AddSuccess t) s = ConsoleReporter_add_success t s"
| "ConsoleReporter_call (SkipUptodate t) s = ConsoleReporter_skip_uptodate t s"
| "ConsoleReporter_call (CleanupError e) s = ConsoleReporter_cleanup_error e s"
| "ConsoleReporter_call CompleteRun s = ConsoleReporter_complete_run s"

fun ConsoleReporter_run :: "event list \<Rightarrow> ConsoleReporter \<Rightarrow> ConsoleReporter" where
  "ConsoleReporter_run [] s = s"
| "ConsoleReporter_run (ev # evs) s = ConsoleReporter_run evs (ConsoleReporter_call ev s)"

text \<open>
  The digest of one failure entry as section 4.2 of the specification words it: the
  separator, the classification name and the task's name, the message, and the captured
  stdout and stderr, each only under its flag.
\<close>

definition failure_digest :: "bool \<Rightarrow> bool \<Rightarrow> failure_entry \<Rightarrow> string" where
  "failure_digest so se result =
     replicate 40 (CHR ''#'') @ ''\<newline>''
     @ get_name (f_exception result) @ '': '' @ name (f_task result) @ ''\<newline>''
     @ get_msg (f_exception result) @ ''\<newline>''
     @ (if so then concat_captured a_out (actions (f_task result)) @ ''\<newline>'' else [])
     @ (if se then concat_captured a_err (actions (f_task result)) @ ''\<newline>'' else [])"

text \<open>The failures a run announces, in the order of the calls.\<close>

fun announced_failures :: "event list \<Rightarrow> failure_entry list" where
  "announced_failures [] = []"
| "announced_failures (AddFailure t e # evs) =
     \<lparr>f_task = t, f_exception = e\<rparr> # announced_failures evs"
| "announced_failures (ev # evs) = announced_failures evs"

section \<open>ExecutedOnlyReporter\<close>

text \<open>
  The subclass keeps the state and every method of ConsoleReporter but two.
\<close>

definition ExecutedOnlyReporter_skip_uptodate ::
  "task \<Rightarrow> ConsoleReporter \<Rightarrow> ConsoleReporter" where
  "ExecutedOnlyReporter_skip_uptodate t s = s"

definition ExecutedOnlyReporter_execute_task ::
  "task \<Rightarrow> ConsoleReporter \<Rightarrow> ConsoleReporter" where
  "ExecutedOnlyReporter_execute_task t s =
     (if actions t \<noteq> [] then sys_stdout_write (title t @ ''\<newline>'') s else s)"

definition ExecutedOnlyReporter_complete_run :: "ConsoleReporter \<Rightarrow> ConsoleReporter" where
  "ExecutedOnlyReporter_complete_run s = ConsoleReporter_complete_run s"

section \<open>TaskResult\<close>

text \<open>
  The clock \<^verbatim>\<open>time.time()\<close> is an input: every method that reads it takes the reading
  as its argument \<open>now\<close>. Readings are real numbers (the rounding of the one
  subtraction in \<^verbatim>\<open>to_dict\<close> is not modelled). The library function
  \<^verbatim>\<open>str(datetime.datetime.utcfromtimestamp(x))\<close> is the parameter \<open>utcstr\<close>, taken to
  return a string for every reading (the library raises only for readings outside its
  range of dates).
\<close>

record TaskResult =
  tr_name :: string
  tr_result :: "string option"
  tr_log :: "string option"
  tr_started :: "string option"
  tr_elapsed :: "real option"
  started_on :: "real option"
  finished_on :: "real option"

text \<open>The dictionary \<^verbatim>\<open>to_dict\<close> returns, with its five keys.\<close>

record result_dict =
  d_name :: string
  d_result :: "string option"
  d_log :: "string option"
  d_started :: "string option"
  d_elapsed :: "real option"

definition TaskResult_init :: "string \<Rightarrow> TaskResult" where
  "TaskResult_init n =
     \<lparr>tr_name = n, tr_result = None, tr_log = None, tr_started = None,
      tr_elapsed = None, started_on = None, finished_on = None\<rparr>"

definition TaskResult_execute :: "real \<Rightarrow> TaskResult \<Rightarrow> TaskResult" where
  "TaskResult_execute now r = r\<lparr>started_on := Some now\<rparr>"

definition TaskResult_set_result ::
  "real \<Rightarrow> task \<Rightarrow> string \<Rightarrow> TaskResult \<Rightarrow> TaskResult" where
  "TaskResult_set_result now t res r =
     (let out = join_captured a_out (actions t);
          err = join_captured a_err (actions t)
      in r\<lparr>finished_on := Some now,
            tr_result := Some res,
            tr_log := Some (''--err--\<newline>'' @ err @ ''--out--\<newline>'' @ out)\<rparr>)"

definition as_dict :: "TaskResult \<Rightarrow> result_dict" where
  "as_dict r =
     \<lparr>d_name = tr_name r, d_result = tr_result r, d_log = tr_log r,
      d_started = tr_started r, d_elapsed = tr_elapsed r\<rparr>"

text \<open>
  \<^verbatim>\<open>to_dict\<close> stores \<^verbatim>\<open>started\<close> and \<^verbatim>\<open>elapsed\<close> in the object before it builds the
  dictionary, so it returns the updated object too. Subtracting from \<^verbatim>\<open>None\<close> raises
  TypeError.
\<close>

definition TaskResult_to_dict ::
  "(real \<Rightarrow> string) \<Rightarrow> TaskResult \<Rightarrow> py_error + (TaskResult \<times> result_dict)" where
  "TaskResult_to_dict utcstr r =
     (case started_on r of
        None \<Rightarrow> Inr (r, as_dict r)
      | Some st \<Rightarrow>
          (case finished_on r of
             None \<Rightarrow> Inl TypeError
           | Some fin \<Rightarrow>
               (let r' = r\<lparr>tr_started := Some (utcstr st), tr_elapsed := Some (fin - st)\<rparr>
                in Inr (r', as_dict r'))))"

section \<open>JsonReporter\<close>

text \<open>
  The dictionary \<^verbatim>\<open>t_results\<close> is an association list with one entry per key:
  assigning to a key that is present replaces its value where it stands, assigning to
  a new key adds an entry, and reading a missing key raises KeyError. The list fixes
  one iteration order for \<^verbatim>\<open>itervalues()\<close> (Python leaves the order open but keeps it
  while the keys do not change). The documents handed to \<^verbatim>\<open>json.dump\<close>
  are kept, in order, in \<open>dumped\<close>, each as the list of dictionaries it was built from.
\<close>

fun dict_setitem :: "string \<Rightarrow> 'v \<Rightarrow> (string \<times> 'v) list \<Rightarrow> (string \<times> 'v) list" where
  "dict_setitem k v [] = [(k, v)]"
| "dict_setitem k v ((k', v') # kvs) =
     (if k' = k then (k, v) # kvs else (k', v') # dict_setitem k v kvs)"

fun dict_getitem :: "(string \<times> 'v) list \<Rightarrow> string \<Rightarrow> py_error + 'v" where
  "dict_getitem [] k = Inl (KeyError k)"
| "dict_getitem ((k', v') # kvs) k = (if k' = k then Inr v' else dict_getitem kvs k)"

record JsonReporter =
  t_results :: "(string \<times> TaskResult) list"
  dumped :: "result_dict list list"

definition JsonReporter_init :: JsonReporter where
  "JsonReporter_init = \<lparr>t_results = [], dumped = []\<rparr>"

definition JsonReporter_start_task :: "task \<Rightarrow> JsonReporter \<Rightarrow> JsonReporter" where
  "JsonReporter_start_task t s =
     s\<lparr>t_results := dict_setitem (name t) (TaskResult_init (name t)) (t_results s)\<rparr>"

definition JsonReporter_execute_task ::
  "real \<Rightarrow> task \<Rightarrow> JsonReporter \<Rightarrow> py_error + JsonReporter" where
  "JsonReporter_execute_task now t s =
     (case dict_getitem (t_results s) (name t) of
        Inl e \<Rightarrow> Inl e
      | Inr r \<Rightarrow>
          Inr (s\<lparr>t_results := dict_setitem (name t) (TaskResult_execute now r) (t_results s)\<rparr>))"

text \<open>
  The three terminal calls differ in the result string only; \<open>set_result_of\<close> is their
  common line \<^verbatim>\<open>self.t_results[task.name].set_result(task, res)\<close>.
\<close>

definition set_result_of ::
  "real \<Rightarrow> task \<Rightarrow> string \<Rightarrow> JsonReporter \<Rightarrow> py_error + JsonReporter" where
  "set_result_of now t res s =
     (case dict_getitem (t_results s) (name t) of
        Inl e \<Rightarrow> Inl e
      | Inr r \<Rightarrow>
          Inr (s\<lparr>t_results :=
                   dict_setitem (name t) (TaskResult_set_result now t res r) (t_results s)\<rparr>))"

definition JsonReporter_add_failure ::
  "real \<Rightarrow> task \<Rightarrow> failure_info \<Rightarrow> JsonReporter \<Rightarrow> py_error + JsonReporter" where
  "JsonReporter_add_failure now t e s = set_result_of now t ''fail'' s"

definition JsonReporter_add_success ::
  "real \<Rightarrow> task \<Rightarrow> JsonReporter \<Rightarrow> py_error + JsonReporter" where
  "JsonReporter_add_success now t s = set_result_of now t ''success'' s"

definition JsonReporter_skip_uptodate ::
  "real \<Rightarrow> task \<Rightarrow> JsonReporter \<Rightarrow> py_error + JsonReporter" where
  "JsonReporter_skip_uptodate now t s = set_result_of now t ''up-to-date'' s"

definition JsonReporter_cleanup_error :: "failure_info \<Rightarrow> JsonReporter \<Rightarrow> JsonReporter" where
  "JsonReporter_cleanup_error e s = s"

text \<open>
  The list comprehension of \<^verbatim>\<open>complete_run\<close>: \<^verbatim>\<open>to_dict\<close> on every value in iteration
  order, stopping at the first exception.
\<close>

fun to_dicts ::
  "(real \<Rightarrow> string) \<Rightarrow> (string \<times> TaskResult) list
    \<Rightarrow> py_error + ((string \<times> TaskResult) list \<times> result_dict list)" where
  "to_dicts utcstr [] = Inr ([], [])"
| "to_dicts utcstr ((k, tr) # kvs) =
     (case TaskResult_to_dict utcstr tr of
        Inl e \<Rightarrow> Inl e
      | Inr (tr', d) \<Rightarrow>
          (case to_dicts utcstr kvs of
             Inl e \<Rightarrow> Inl e
           | Inr (kvs', ds) \<Rightarrow> Inr ((k, tr') # kvs', d # ds)))"

definition JsonReporter_complete_run ::
  "(real \<Rightarrow> string) \<Rightarrow> JsonReporter \<Rightarrow> py_error + JsonReporter" where
  "JsonReporter_complete_run utcstr s =
     (case to_dicts utcstr (t_results s) of
        Inl e \<Rightarrow> Inl e
      | Inr (kvs', json_data) \<Rightarrow> Inr (s\<lparr>t_results := kvs', dumped := dumped s @ [json_data]\<rparr>))"

text \<open>A timed call: the event and the clock reading its method would get.\<close>

fun JsonReporter_call ::
  "(real \<Rightarrow> string) \<Rightarrow> real \<times> event \<Rightarrow> JsonReporter \<Rightarrow> py_error + JsonReporter" where
  "JsonReporter_call utcstr (now, StartTask t) s = Inr (JsonReporter_start_task t s)"
| "JsonReporter_call utcstr (now, ExecuteTask t) s = JsonReporter_execute_task now t s"
| "JsonReporter_call utcstr (now, AddFailure t e) s = JsonReporter_add_failure now t e s"
| "JsonReporter_call utcstr (now, AddSuccess t) s = JsonReporter_add_success now t s"
| "JsonReporter_call utcstr (now, SkipUptodate t) s = JsonReporter_skip_uptodate now t s"
| "JsonReporter_call utcstr (now, CleanupError e) s = Inr (JsonReporter_cleanup_error e s)"
| "JsonReporter_call utcstr (now, CompleteRun) s = JsonReporter_complete_run utcstr s"

text \<open>A run stops at the first exception, which reaches the scheduler.\<close>

fun JsonReporter_run ::
  "(real \<Rightarrow> string) \<Rightarrow> (real \<times> event) list \<Rightarrow> JsonReporter \<Rightarrow> py_error + JsonReporter" where
  "JsonReporter_run utcstr [] s = Inr s"
| "JsonReporter_run utcstr (c # cs) s =
     (case JsonReporter_call utcstr c s of
        Inl e \<Rightarrow> Inl e
      | Inr s' \<Rightarrow> JsonReporter_run utcstr cs s')"

text \<open>The task name a call is about, if it is about a task.\<close>

fun event_name :: "event \<Rightarrow> string option" where
  "event_name (StartTask t) = Some (name t)"
| "event_name (ExecuteTask t) = Some (name t)"
| "event_name (AddFailure t e) = Some (name t)"
| "event_name (AddSuccess t) = Some (name t)"
| "event_name (SkipUptodate t) = Some (name t)"
| "event_name (CleanupError e) = None"
| "event_name CompleteRun = None"

section \<open>Observations on a JsonReporter\<close>

text \<open>
  The dictionary that \<^verbatim>\<open>to_dict\<close> builds for the record stored under a name: the
  serialized Result Record of that task, or the exception raised on the way.
\<close>

definition serialized ::
  "(real \<Rightarrow> string) \<Rightarrow> JsonReporter \<Rightarrow> string \<Rightarrow> py_error + result_dict" where
  "serialized utcstr s n =
     (case dict_getitem (t_results s) n of
        Inl e \<Rightarrow> Inl e
      | Inr r \<Rightarrow>
          (case TaskResult_to_dict utcstr r of
             Inl e \<Rightarrow> Inl e
           | Inr (r', d) \<Rightarrow> Inr d))"

text \<open>
  The record as a successful \<^verbatim>\<open>to_dict\<close> leaves it (unchanged when \<^verbatim>\<open>to_dict\<close> raises).
\<close>

definition settle :: "(real \<Rightarrow> string) \<Rightarrow> TaskResult \<Rightarrow> TaskResult" where
  "settle utcstr r =
     (case TaskResult_to_dict utcstr r of
        Inl e \<Rightarrow> r
      | Inr (r', d) \<Rightarrow> r')"

text \<open>
  The result string the specification attaches to each terminal event, and the fixed
  template of the log: the stderr header, the joined captured stderr, the stdout header,
  the joined captured stdout.
\<close>

fun terminal_result :: "event \<Rightarrow> string option" where
  "terminal_result (AddFailure t e) = Some ''fail''"
| "terminal_result (AddSuccess t) = Some ''success''"
| "terminal_result (SkipUptodate t) = Some ''up-to-date''"
| "terminal_result ev = None"

fun event_task :: "event \<Rightarrow> task option" where
  "event_task (StartTask t) = Some t"
| "event_task (ExecuteTask t) = Some t"
| "event_task (AddFailure t e) = Some t"
| "event_task (AddSuccess t) = Some t"
| "event_task (SkipUptodate t) = Some t"
| "event_task ev = None"

definition log_template :: "task \<Rightarrow> string" where
  "log_template t =
     ''--err--\<newline>'' @ concat_captured a_err (actions t)
     @ ''--out--\<newline>'' @ concat_captured a_out (actions t)"

text \<open>Whether a call is \<^verbatim>\<open>start_task\<close> for the given name.\<close>

fun starts :: "string \<Rightarrow> event \<Rightarrow> bool" where
  "starts n (StartTask t) = (name t = n)"
| "starts n ev = False"

text \<open>Whether no call of a timed run is about the given name.\<close>

fun silent_on :: "string \<Rightarrow> (real \<times> event) list \<Rightarrow> bool" where
  "silent_on n [] = True"
| "silent_on n (c # cs) = (event_name (snd c) \<noteq> Some n \<and> silent_on n cs)"

text \<open>Whether no call of a timed run is \<^verbatim>\<open>start_task\<close> for the given name.\<close>

fun never_started :: "string \<Rightarrow> (real \<times> event) list \<Rightarrow> bool" where
  "never_started n [] = True"
| "never_started n (c # cs) = (\<not> starts n (snd c) \<and> never_started n cs)"

text \<open>
  A stand-in for the timestamp formatter in the concrete runs below; the general
  statements hold for every formatter.
\<close>

definition sample_utcstr :: "real \<Rightarrow> string" where
  "sample_utcstr x = (if x = 0 then ''1970-01-01 00:00:00'' else ''1970-01-01 00:00:10'')"

definition sample_task :: task where
  "sample_task =
     \<lparr>name = ''T'', title = ''T'',
      actions =
        [\<lparr>a_out = Some ''o1'', a_err = Some ''e1''\<rparr>,
         \<lparr>a_out = Some [], a_err = None\<rparr>,
         \<lparr>a_out = Some ''o3'', a_err = Some ''e3''\<rparr>]\<rparr>"

section \<open>The end-to-end scenario of the specification\<close>

text \<open>
  Task T1 prints hello to stdout and succeeds; task T2 writes boom to stderr and fails
  with the classification CommandError and the message exit code 1. The titles are
  left open.
\<close>

definition scenario_T1 :: "string \<Rightarrow> task" where
  "scenario_T1 ti =
     \<lparr>name = ''T1'', title = ti, actions = [\<lparr>a_out = Some ''hello'', a_err = None\<rparr>]\<rparr>"

definition scenario_T2 :: "string \<Rightarrow> task" where
  "scenario_T2 ti =
     \<lparr>name = ''T2'', title = ti, actions = [\<lparr>a_out = None, a_err = Some ''boom''\<rparr>]\<rparr>"

definition scenario_failure :: failure_info where
  "scenario_failure = \<lparr>get_name = ''CommandError'', get_msg = ''exit code 1''\<rparr>"

definition scenario_run :: "string \<Rightarrow> string \<Rightarrow> event list" where
  "scenario_run ti1 ti2 =
     [StartTask (scenario_T1 ti1), ExecuteTask (scenario_T1 ti1), AddSuccess (scenario_T1 ti1),
      StartTask (scenario_T2 ti2), ExecuteTask (scenario_T2 ti2),
      AddFailure (scenario_T2 ti2) scenario_failure,
      CompleteRun]"

section \<open>Runs used in the statements below\<close>

text \<open>Whether a call is \<^verbatim>\<open>execute_task\<close>.\<close>

fun is_execute :: "event \<Rightarrow> bool" where
  "is_execute (ExecuteTask t) = True"
| "is_execute ev = False"

text \<open>
  Whether every call of a timed run that is about the given name is \<^verbatim>\<open>execute_task\<close>:
  the name gets neither a new record nor a result.
\<close>

fun only_executes :: "string \<Rightarrow> (real \<times> event) list \<Rightarrow> bool" where
  "only_executes n [] = True"
| "only_executes n (c # cs) =
     ((event_name (snd c) \<noteq> Some n \<or> is_execute (snd c)) \<and> only_executes n cs)"

text \<open>
  A whole run on a fresh JsonReporter, followed by the serialization of one name.
\<close>

definition run_and_serialize ::
  "(real \<Rightarrow> string) \<Rightarrow> (real \<times> event) list \<Rightarrow> string \<Rightarrow> py_error + result_dict" where
  "run_and_serialize utcstr cs n =
     (case JsonReporter_run utcstr cs JsonReporter_init of
        Inl e \<Rightarrow> Inl e
      | Inr s \<Rightarrow> serialized utcstr s n)"

text \<open>
  The reporter after \<^verbatim>\<open>start_task\<close>, \<^verbatim>\<open>execute_task\<close> at time 0 and \<^verbatim>\<open>add_success\<close> at
  time 10 on the sample task, and the document \<^verbatim>\<open>complete_run\<close> builds from it.
\<close>

definition sample_finished :: JsonReporter where
  "sample_finished =
     \<lparr>t_results =
        [(''T'', \<lparr>tr_name = ''T'', tr_result = Some ''success'',
                 tr_log = Some ''--err--\<newline>e1e3--out--\<newline>o1o3'',
                 tr_started = None, tr_elapsed = None,
                 started_on = Some 0, finished_on = Some 10\<rparr>)],
      dumped = []\<rparr>"

definition sample_document :: "result_dict list" where
  "sample_document =
     [\<lparr>d_name = ''T'', d_result = Some ''success'',
       d_log = Some ''--err--\<newline>e1e3--out--\<newline>o1o3'',
       d_started = Some ''1970-01-01 00:00:00'', d_elapsed = Some 10\<rparr>]"

section \<open>The joined streams\<close>

text \<open>
  The comprehension of the source computes the concatenation the specification
  describes.
\<close>

lemma join_captured_concat: "join_captured sel as = concat_captured sel as"
proof (induction as)
  case Nil
  show ?case by (simp add: concat_captured_def)
next
  case (Cons a as)
  then show ?case by (cases "sel a") (simp_all add: concat_captured_def)
qed

section \<open>Properties of FakeReporter\<close>

lemma FakeReporter_call_log:
  "fake_log (FakeReporter_call ev s) = fake_log s @ expected_record ev"
  by (cases ev)
    (simp_all add: FakeReporter_start_task_def FakeReporter_execute_task_def
      FakeReporter_add_failure_def FakeReporter_add_success_def
      FakeReporter_skip_uptodate_def FakeReporter_cleanup_error_def
      FakeReporter_complete_run_def)

lemma FakeReporter_run_log:
  "fake_log (FakeReporter_run evs s) = fake_log s @ concat (map expected_record evs)"
  by (induction evs arbitrary: s) (simp_all add: FakeReporter_call_log)

text \<open>
  Claim C2. Whatever sequence of lifecycle calls a fresh FakeReporter receives, its
  log is the sequence of the calls in order: each call but \<^verbatim>\<open>complete_run\<close> contributes
  exactly its own tuple (kind and task; the kind alone for \<^verbatim>\<open>cleanup_error\<close>), with the
  kinds start, execute, fail, success, skip, cleanup_error, and \<^verbatim>\<open>complete_run\<close>
  contributes nothing. The same holds for a run that continues from any earlier log.
\<close>

theorem FakeReporter_log_is_call_sequence:
  "fake_log (FakeReporter_run evs FakeReporter_init) = concat (map expected_record evs)
   \<and> fake_log (FakeReporter_run evs s) = fake_log s @ concat (map expected_record evs)
   \<and> fake_log (FakeReporter_complete_run s) = fake_log s"
  by (simp add: FakeReporter_run_log FakeReporter_init_def FakeReporter_complete_run_def)

section \<open>Properties of ConsoleReporter and ExecutedOnlyReporter\<close>

lemma report_failure_digest:
  "report_failure result s =
     s\<lparr>stderr := stderr s @ failure_digest (show_out s) (show_err s) result\<rparr>"
  by (simp add: report_failure_def failure_digest_def sys_stderr_write_def Let_def
      join_captured_concat)

lemma report_failures_digest:
  "report_failures rs s =
     s\<lparr>stderr := stderr s @ concat (map (failure_digest (show_out s) (show_err s)) rs)\<rparr>"
  by (induction rs arbitrary: s) (simp_all add: report_failure_digest)

lemma ConsoleReporter_call_failures:
  "failures (ConsoleReporter_call ev s) = failures s @ announced_failures [ev]"
  by (cases ev)
    (simp_all add: ConsoleReporter_start_task_def ConsoleReporter_execute_task_def
      ConsoleReporter_add_failure_def ConsoleReporter_add_success_def
      ConsoleReporter_skip_uptodate_def ConsoleReporter_cleanup_error_def
      ConsoleReporter_complete_run_def report_failures_digest
      sys_stdout_write_def sys_stderr_write_def)

lemma announced_failures_Cons:
  "announced_failures (ev # evs) = announced_failures [ev] @ announced_failures evs"
  by (cases ev) simp_all

lemma ConsoleReporter_run_failures:
  "failures (ConsoleReporter_run evs s) = failures s @ announced_failures evs"
proof (induction evs arbitrary: s)
  case Nil
  show ?case by simp
next
  case (Cons ev evs)
  have "failures (ConsoleReporter_run (ev # evs) s)
      = failures (ConsoleReporter_call ev s) @ announced_failures evs"
    using Cons.IH by simp
  also have "\<dots> = failures s @ announced_failures [ev] @ announced_failures evs"
    by (simp add: ConsoleReporter_call_failures)
  finally show ?case using announced_failures_Cons [of ev evs] by simp
qed

lemma scenario_console:
  "ConsoleReporter_run (scenario_run ti1 ti2) (ConsoleReporter_init True True)
   = \<lparr>failures = [\<lparr>f_task = scenario_T2 ti2, f_exception = scenario_failure\<rparr>],
      show_out = True, show_err = True,
      stdout = ti1 @ ''\<newline>'' @ ti2 @ ''\<newline>'',
      stderr = replicate 40 (CHR ''#'')
        @ ''\<newline>CommandError: T2\<newline>exit code 1\<newline>\<newline>boom\<newline>''\<rparr>"
  by (simp add: scenario_run_def ConsoleReporter_start_task_def
      ConsoleReporter_execute_task_def ConsoleReporter_add_failure_def
      ConsoleReporter_add_success_def ConsoleReporter_complete_run_def
      report_failures_digest failure_digest_def concat_captured_def sys_stdout_write_def
      ConsoleReporter_init_def scenario_T1_def scenario_T2_def scenario_failure_def)

text \<open>
  The sample task, whose actions captured o1, nothing and o3 on stdout and e1, nothing
  and e3 on stderr, fails; the digest is computed by the loop of \<^verbatim>\<open>complete_run\<close>
  itself, under the three settings of the flags that show anything.
\<close>

lemma sample_console:
  "stderr (ConsoleReporter_run [AddFailure sample_task scenario_failure, CompleteRun]
            (ConsoleReporter_init True True))
     = replicate 40 (CHR ''#'')
       @ ''\<newline>CommandError: T\<newline>exit code 1\<newline>o1o3\<newline>e1e3\<newline>''"
  "stderr (ConsoleReporter_run [AddFailure sample_task scenario_failure, CompleteRun]
            (ConsoleReporter_init True False))
     = replicate 40 (CHR ''#'')
       @ ''\<newline>CommandError: T\<newline>exit code 1\<newline>o1o3\<newline>''"
  "stderr (ConsoleReporter_run [AddFailure sample_task scenario_failure, CompleteRun]
            (ConsoleReporter_init False True))
     = replicate 40 (CHR ''#'')
       @ ''\<newline>CommandError: T\<newline>exit code 1\<newline>e1e3\<newline>''"
  by (simp_all add: ConsoleReporter_add_failure_def ConsoleReporter_complete_run_def
      ConsoleReporter_init_def report_failure_def sys_stderr_write_def Let_def
      sample_task_def scenario_failure_def)

text \<open>
  Claim C3. \<^verbatim>\<open>complete_run\<close> of the ConsoleReporter appends to the error channel, for
  each buffered failure entry in list order, the separator line of forty hash signs,
  the line with the classification name, a colon and the task's name, the message and
  a newline, then, only under \<^verbatim>\<open>show_out\<close>, the joined captured stdout of the task's
  actions and a newline, then, only under \<^verbatim>\<open>show_err\<close>, the joined captured stderr and
  a newline; it changes nothing else. The buffered entries of a run are its
  \<^verbatim>\<open>add_failure\<close> calls in call order. In the scenario with both flags set, the error
  channel ends up holding the digest of T2 alone (separator, CommandError: T2,
  exit code 1, the line of T2's captured stdout, which is empty, and boom), and the
  primary channel holds the two progress lines and nothing more. For a failed task
  whose actions captured o1, nothing and o3 on stdout and e1, nothing and e3 on stderr,
  the digest shows o1o3 under \<^verbatim>\<open>show_out\<close> and e1e3 under \<^verbatim>\<open>show_err\<close>, each only when its
  flag is set.
\<close>

theorem ConsoleReporter_complete_run_digest:
  "ConsoleReporter_complete_run s =
     s\<lparr>stderr := stderr s
          @ concat (map (failure_digest (show_out s) (show_err s)) (failures s))\<rparr>
   \<and> failures (ConsoleReporter_run evs (ConsoleReporter_init so se)) = announced_failures evs
   \<and> stderr (ConsoleReporter_run (scenario_run ti1 ti2) (ConsoleReporter_init True True))
       = replicate 40 (CHR ''#'')
         @ ''\<newline>CommandError: T2\<newline>exit code 1\<newline>\<newline>boom\<newline>''
   \<and> stdout (ConsoleReporter_run (scenario_run ti1 ti2) (ConsoleReporter_init True True))
       = ti1 @ ''\<newline>'' @ ti2 @ ''\<newline>''
   \<and> stderr (ConsoleReporter_run [AddFailure sample_task scenario_failure, CompleteRun]
            (ConsoleReporter_init True True))
       = replicate 40 (CHR ''#'')
         @ ''\<newline>CommandError: T\<newline>exit code 1\<newline>o1o3\<newline>e1e3\<newline>''
   \<and> stderr (ConsoleReporter_run [AddFailure sample_task scenario_failure, CompleteRun]
            (ConsoleReporter_init True False))
       = replicate 40 (CHR ''#'')
         @ ''\<newline>CommandError: T\<newline>exit code 1\<newline>o1o3\<newline>''
   \<and> stderr (ConsoleReporter_run [AddFailure sample_task scenario_failure, CompleteRun]
            (ConsoleReporter_init False True))
       = replicate 40 (CHR ''#'')
         @ ''\<newline>CommandError: T\<newline>exit code 1\<newline>e1e3\<newline>''"
proof -
  have "ConsoleReporter_complete_run s =
     s\<lparr>stderr := stderr s
          @ concat (map (failure_digest (show_out s) (show_err s)) (failures s))\<rparr>"
    by (simp add: ConsoleReporter_complete_run_def report_failures_digest)
  moreover have
    "failures (ConsoleReporter_run evs (ConsoleReporter_init so se)) = announced_failures evs"
    by (simp add: ConsoleReporter_run_failures) (simp add: ConsoleReporter_init_def)
  moreover have
    "stderr (ConsoleReporter_run (scenario_run ti1 ti2) (ConsoleReporter_init True True))
       = replicate 40 (CHR ''#'')
         @ ''\<newline>CommandError: T2\<newline>exit code 1\<newline>\<newline>boom\<newline>''"
    "stdout (ConsoleReporter_run (scenario_run ti1 ti2) (ConsoleReporter_init True True))
       = ti1 @ ''\<newline>'' @ ti2 @ ''\<newline>''"
    by (simp_all only: scenario_console ConsoleReporter.simps)
  ultimately show ?thesis using sample_console by (intro conjI)
qed

text \<open>
  Claim C4. In the ExecutedOnlyReporter, \<^verbatim>\<open>skip_uptodate\<close> leaves both channels (and the
  whole state) as they were; \<^verbatim>\<open>execute_task\<close> on a task whose action list is empty does
  the same; on a task with at least one action it appends the title and a newline to
  the primary channel, once, and changes nothing else.
\<close>

theorem ExecutedOnlyReporter_output:
  "ExecutedOnlyReporter_skip_uptodate t s = s
   \<and> ExecutedOnlyReporter_execute_task (t\<lparr>actions := []\<rparr>) s = s
   \<and> ExecutedOnlyReporter_execute_task (t\<lparr>actions := a # as\<rparr>) s
       = s\<lparr>stdout := stdout s @ title t @ ''\<newline>''\<rparr>"
  by (simp add: ExecutedOnlyReporter_skip_uptodate_def ExecutedOnlyReporter_execute_task_def
      sys_stdout_write_def)

section \<open>The dictionary of records\<close>

lemma dict_getitem_setitem_same:
  "dict_getitem (dict_setitem k v kvs) k = Inr v"
  by (induction kvs) auto

lemma dict_getitem_setitem_other:
  "k' \<noteq> k \<Longrightarrow> dict_getitem (dict_setitem k v kvs) k' = dict_getitem kvs k'"
  by (induction kvs) auto

lemma map_fst_dict_setitem:
  "map fst (dict_setitem k v kvs) =
     (if k \<in> set (map fst kvs) then map fst kvs else map fst kvs @ [k])"
proof (induction kvs)
  case Nil
  show ?case by simp
next
  case (Cons kv kvs)
  then show ?case by (cases kv) auto
qed

lemma distinct_dict_setitem:
  "distinct (map fst kvs) \<Longrightarrow> distinct (map fst (dict_setitem k v kvs))"
  by (simp only: map_fst_dict_setitem split: if_splits) simp

lemma dict_getitem_Inl:
  "dict_getitem kvs k = Inl e \<longleftrightarrow> (k \<notin> set (map fst kvs) \<and> e = KeyError k)"
proof (induction kvs)
  case Nil
  show ?case by auto
next
  case (Cons kv kvs)
  then show ?case by (cases kv) auto
qed

lemma dict_getitem_Inr_mem:
  "dict_getitem kvs k = Inr v \<Longrightarrow> (k, v) \<in> set kvs"
  by (induction kvs) (auto split: if_splits)

lemma dict_getitem_Inr_key:
  "dict_getitem kvs k = Inr v \<Longrightarrow> k \<in> set (map fst kvs)"
  using dict_getitem_Inr_mem [of kvs k v] by force

section \<open>Serializing records\<close>

lemma to_dict_error: "TaskResult_to_dict utcstr r = Inl e \<Longrightarrow> e = TypeError"
  by (auto simp: TaskResult_to_dict_def Let_def split: option.splits)

lemma to_dict_idem:
  "TaskResult_to_dict utcstr r = Inr (r', d) \<Longrightarrow> TaskResult_to_dict utcstr r' = Inr (r', d)"
  by (auto simp: TaskResult_to_dict_def Let_def split: option.splits)

lemma to_dicts_idem:
  "to_dicts utcstr kvs = Inr (kvs', ds) \<Longrightarrow> to_dicts utcstr kvs' = Inr (kvs', ds)"
proof (induction kvs arbitrary: kvs' ds)
  case Nil
  then show ?case by simp
next
  case (Cons kv kvs)
  obtain k r where kv: "kv = (k, r)" by (cases kv)
  from Cons.prems kv obtain r' d rest ds' where
    h: "TaskResult_to_dict utcstr r = Inr (r', d)"
       "to_dicts utcstr kvs = Inr (rest, ds')"
       "kvs' = (k, r') # rest" "ds = d # ds'"
    by (auto split: sum.splits)
  from Cons.IH [OF h(2)] to_dict_idem [OF h(1)] h(3,4)
  show ?case by simp
qed

lemma to_dicts_keys:
  "to_dicts utcstr kvs = Inr (kvs', ds) \<Longrightarrow> map fst kvs' = map fst kvs"
  by (induction kvs arbitrary: kvs' ds) (auto split: sum.splits)

lemma to_dicts_getitem:
  "to_dicts utcstr kvs = Inr (kvs', ds) \<Longrightarrow> dict_getitem kvs n = Inr r
   \<Longrightarrow> dict_getitem kvs' n = Inr (settle utcstr r)"
  by (induction kvs arbitrary: kvs' ds) (auto simp: settle_def split: sum.splits if_splits)

lemma to_dicts_TypeError:
  "(k, r) \<in> set kvs \<Longrightarrow> started_on r = Some a \<Longrightarrow> finished_on r = None
   \<Longrightarrow> to_dicts utcstr kvs = Inl TypeError"
proof (induction kvs)
  case Nil
  then show ?case by simp
next
  case (Cons kv kvs)
  obtain k' r' where kv: "kv = (k', r')" by (cases kv)
  show ?case
  proof (cases "TaskResult_to_dict utcstr r'")
    case (Inl e)
    then show ?thesis using kv to_dict_error [OF Inl] by simp
  next
    case (Inr p)
    then have "r \<noteq> r'" using Cons.prems(2,3)
      by (auto simp: TaskResult_to_dict_def)
    then have "(k, r) \<in> set kvs" using Cons.prems(1) kv by auto
    from Cons.IH [OF this Cons.prems(2,3)] show ?thesis using kv Inr
      by (simp split: prod.splits)
  qed
qed

lemma to_dicts_mem:
  "to_dicts utcstr kvs = Inr (kvs', ds) \<Longrightarrow> (k, r) \<in> set kvs
   \<Longrightarrow> TaskResult_to_dict utcstr r = Inr (r', d) \<Longrightarrow> d \<in> set ds"
  by (induction kvs arbitrary: kvs' ds) (auto split: sum.splits)

lemma settle_fix:
  "started_on r = None \<or> finished_on r = None \<Longrightarrow> settle utcstr r = r"
  by (auto simp: settle_def TaskResult_to_dict_def split: option.splits)

lemma settle_idem: "settle utcstr (settle utcstr r) = settle utcstr r"
  by (auto simp: settle_def TaskResult_to_dict_def Let_def split: option.splits)

lemma to_dict_settle:
  "TaskResult_to_dict utcstr r = Inr (r', d)
   \<Longrightarrow> TaskResult_to_dict utcstr (settle utcstr r) = Inr (r', d)"
  by (auto simp: settle_def TaskResult_to_dict_def Let_def split: option.splits)

section \<open>Calls about other names leave a record alone\<close>

lemmas JsonReporter_defs =
  JsonReporter_start_task_def JsonReporter_execute_task_def set_result_of_def
  JsonReporter_add_failure_def JsonReporter_add_success_def JsonReporter_skip_uptodate_def
  JsonReporter_cleanup_error_def JsonReporter_complete_run_def

lemma call_frame:
  assumes "JsonReporter_call utcstr c s = Inr s'"
    and "event_name (snd c) \<noteq> Some n"
    and "dict_getitem (t_results s) n = Inr r"
  shows "dict_getitem (t_results s') n = Inr r
       \<or> dict_getitem (t_results s') n = Inr (settle utcstr r)"
proof -
  obtain now ev where c: "c = (now, ev)" by (cases c)
  show ?thesis
  proof (cases ev)
    case CompleteRun
    with assms c obtain kvs' ds where "to_dicts utcstr (t_results s) = Inr (kvs', ds)"
      and "t_results s' = kvs'"
      by (auto simp: JsonReporter_defs split: sum.splits)
    with to_dicts_getitem [OF this(1) assms(3)] show ?thesis by simp
  qed (use assms c in \<open>auto simp: JsonReporter_defs dict_getitem_setitem_other
        split: sum.splits\<close>)
qed

lemma run_append:
  "JsonReporter_run utcstr (xs @ ys) s =
     (case JsonReporter_run utcstr xs s of
        Inl e \<Rightarrow> Inl e
      | Inr s' \<Rightarrow> JsonReporter_run utcstr ys s')"
  by (induction xs arbitrary: s) (auto split: sum.splits)

lemma run_frame:
  assumes "JsonReporter_run utcstr cs s = Inr s'"
    and "silent_on n cs"
    and "dict_getitem (t_results s) n = Inr r"
  shows "dict_getitem (t_results s') n = Inr r
       \<or> dict_getitem (t_results s') n = Inr (settle utcstr r)"
  using assms
proof (induction cs arbitrary: s r)
  case Nil
  then show ?case by simp
next
  case (Cons c cs)
  from Cons.prems(1) obtain s1 where
    step: "JsonReporter_call utcstr c s = Inr s1" and
    rest: "JsonReporter_run utcstr cs s1 = Inr s'"
    by (auto split: sum.splits)
  from Cons.prems(2) have quiet: "event_name (snd c) \<noteq> Some n" "silent_on n cs"
    by simp_all
  from call_frame [OF step quiet(1) Cons.prems(3)]
  consider "dict_getitem (t_results s1) n = Inr r"
    | "dict_getitem (t_results s1) n = Inr (settle utcstr r)"
    by blast
  then show ?case
  proof cases
    case 1
    from Cons.IH [OF rest quiet(2) 1] show ?thesis .
  next
    case 2
    from Cons.IH [OF rest quiet(2) 2] show ?thesis by (simp add: settle_idem)
  qed
qed

lemma serialized_settle:
  "dict_getitem (t_results s) n = Inr r \<or> dict_getitem (t_results s) n = Inr (settle utcstr r)
   \<Longrightarrow> TaskResult_to_dict utcstr r = Inr (r', d)
   \<Longrightarrow> serialized utcstr s n = Inr d"
  by (auto simp: serialized_def to_dict_settle)

lemma start_task_getitem:
  "dict_getitem (t_results (JsonReporter_start_task t s)) (name t) = Inr (TaskResult_init (name t))"
  by (simp add: JsonReporter_start_task_def dict_getitem_setitem_same)

lemma call_terminal_getitem:
  assumes "JsonReporter_call utcstr (now, ev) s = Inr s'"
    and "event_task ev = Some t" and "terminal_result ev = Some res"
    and "dict_getitem (t_results s) (name t) = Inr r"
  shows "dict_getitem (t_results s') (name t) = Inr (TaskResult_set_result now t res r)"
  using assms by (cases ev) (auto simp: JsonReporter_defs dict_getitem_setitem_same)

lemma call_execute_getitem:
  assumes "JsonReporter_call utcstr (now, ExecuteTask t) s = Inr s'"
    and "dict_getitem (t_results s) (name t) = Inr r"
  shows "dict_getitem (t_results s') (name t) = Inr (TaskResult_execute now r)"
  using assms by (auto simp: JsonReporter_defs dict_getitem_setitem_same)

lemma run_frame_fix:
  assumes "JsonReporter_run utcstr cs s = Inr s'"
    and "silent_on n cs"
    and "dict_getitem (t_results s) n = Inr r"
    and "started_on r = None \<or> finished_on r = None"
  shows "dict_getitem (t_results s') n = Inr r"
  using run_frame [OF assms(1-3)] settle_fix [OF assms(4)] by auto

lemma complete_run_document:
  assumes "JsonReporter_complete_run utcstr s = Inr s'"
    and "serialized utcstr s n = Inr d"
  shows "d \<in> set (last (dumped s'))"
proof -
  from assms(1) obtain kvs' ds where
    td: "to_dicts utcstr (t_results s) = Inr (kvs', ds)" and "dumped s' = dumped s @ [ds]"
    by (auto simp: JsonReporter_complete_run_def split: sum.splits)
  from assms(2) obtain r r' where
    "dict_getitem (t_results s) n = Inr r" "TaskResult_to_dict utcstr r = Inr (r', d)"
    by (auto simp: serialized_def split: sum.splits)
  with to_dicts_mem [OF td dict_getitem_Inr_mem] have "d \<in> set ds" by blast
  with \<open>dumped s' = dumped s @ [ds]\<close> show ?thesis by simp
qed

lemmas eval_defs =
  JsonReporter_defs JsonReporter_init_def TaskResult_init_def TaskResult_execute_def
  TaskResult_set_result_def TaskResult_to_dict_def as_dict_def serialized_def
  sample_task_def sample_utcstr_def log_template_def concat_captured_def
  run_and_serialize_def

lemma sample_run:
  "JsonReporter_run sample_utcstr
     [(0, StartTask sample_task), (0, ExecuteTask sample_task), (10, AddSuccess sample_task)]
     JsonReporter_init = Inr sample_finished"
  by (simp add: eval_defs sample_finished_def)

section \<open>Properties of JsonReporter\<close>

text \<open>
  Claim C1, as the code has it. Take any run that contains \<^verbatim>\<open>start_task\<close> for a task,
  later \<^verbatim>\<open>execute_task\<close> for it (clock reading \<open>te\<close>), later one terminal call for it
  (\<^verbatim>\<open>add_failure\<close>, \<^verbatim>\<open>add_success\<close> or \<^verbatim>\<open>skip_uptodate\<close>, clock reading \<open>tf\<close>), and
  otherwise only calls that are not about this task's name after the \<^verbatim>\<open>start_task\<close>.
  Then the serialized record of the task has the task's name, the result string of the
  terminal call (fail, success, up-to-date), the log made of the header
  \<^verbatim>\<open>--err--\<close>, the joined captured stderr, the header \<^verbatim>\<open>--out--\<close> and the joined captured
  stdout of the task's actions as they are at the terminal call, a non-null
  \<^verbatim>\<open>started\<close> (the formatted reading \<open>te\<close>), and a non-null \<^verbatim>\<open>elapsed\<close> equal to
  \<open>tf - te\<close>, which is non-negative exactly when the clock did not go backwards between
  the two calls. If \<^verbatim>\<open>complete_run\<close> then succeeds, this dictionary is in the document.
\<close>

theorem JsonReporter_executed_task_record:
  assumes run: "JsonReporter_run utcstr
       (pre @ [(n0, StartTask t)] @ mid1 @ [(te, ExecuteTask t1)] @ mid2 @ [(tf, ev)] @ post) s0
       = Inr s"
    and t1: "name t1 = name t"
    and ev: "event_task ev = Some t2" "terminal_result ev = Some res"
    and t2: "name t2 = name t"
    and quiet: "silent_on (name t) mid1" "silent_on (name t) mid2" "silent_on (name t) post"
  shows "serialized utcstr s (name t) =
           Inr \<lparr>d_name = name t, d_result = Some res, d_log = Some (log_template t2),
                d_started = Some (utcstr te), d_elapsed = Some (tf - te)\<rparr>
         \<and> (te \<le> tf \<longrightarrow>
               (\<exists>d el. serialized utcstr s (name t) = Inr d
                  \<and> d_elapsed d = Some el \<and> 0 \<le> el))
         \<and> (\<forall>s'. JsonReporter_complete_run utcstr s = Inr s' \<longrightarrow>
               \<lparr>d_name = name t, d_result = Some res, d_log = Some (log_template t2),
                d_started = Some (utcstr te), d_elapsed = Some (tf - te)\<rparr>
               \<in> set (last (dumped s')))"
proof -
  from run obtain a b c d e f where
    a: "JsonReporter_run utcstr pre s0 = Inr a" and
    b: "JsonReporter_call utcstr (n0, StartTask t) a = Inr b" and
    c: "JsonReporter_run utcstr mid1 b = Inr c" and
    d: "JsonReporter_call utcstr (te, ExecuteTask t1) c = Inr d" and
    e: "JsonReporter_run utcstr mid2 d = Inr e" and
    f: "JsonReporter_call utcstr (tf, ev) e = Inr f" and
    s: "JsonReporter_run utcstr post f = Inr s"
    by (auto simp: run_append split: sum.splits)
  let ?n = "name t"
  let ?r0 = "TaskResult_init ?n"
  let ?r1 = "TaskResult_execute te ?r0"
  let ?r2 = "TaskResult_set_result tf t2 res ?r1"
  let ?d = "\<lparr>d_name = name t, d_result = Some res, d_log = Some (log_template t2),
                d_started = Some (utcstr te), d_elapsed = Some (tf - te)\<rparr>"
  from b have "dict_getitem (t_results b) ?n = Inr ?r0"
    using start_task_getitem [of t a] by simp
  from run_frame_fix [OF c quiet(1) this] have "dict_getitem (t_results c) ?n = Inr ?r0"
    by (simp add: TaskResult_init_def)
  with call_execute_getitem [OF d] t1 have "dict_getitem (t_results d) ?n = Inr ?r1"
    by simp
  from run_frame_fix [OF e quiet(2) this] have "dict_getitem (t_results e) ?n = Inr ?r1"
    by (simp add: TaskResult_init_def TaskResult_execute_def)
  with call_terminal_getitem [OF f ev] t2 have "dict_getitem (t_results f) ?n = Inr ?r2"
    by simp
  from run_frame [OF s quiet(3) this]
  have "dict_getitem (t_results s) ?n = Inr ?r2
      \<or> dict_getitem (t_results s) ?n = Inr (settle utcstr ?r2)" .
  moreover have "TaskResult_to_dict utcstr ?r2 =
      Inr (?r2\<lparr>tr_started := Some (utcstr te), tr_elapsed := Some (tf - te)\<rparr>, ?d)"
    by (simp add: TaskResult_to_dict_def TaskResult_set_result_def TaskResult_execute_def
        TaskResult_init_def as_dict_def log_template_def join_captured_concat Let_def)
  ultimately have ser: "serialized utcstr s ?n = Inr ?d"
    by (rule serialized_settle)
  then have "\<forall>s'. JsonReporter_complete_run utcstr s = Inr s' \<longrightarrow> ?d \<in> set (last (dumped s'))"
    using complete_run_document by blast
  with ser show ?thesis by simp
qed

text \<open>
  The sample task started, executed at time 0 and failed at time 10.
\<close>

theorem JsonReporter_executed_task_record_witness:
  "run_and_serialize sample_utcstr
     ([] @ [(0, StartTask sample_task)] @ [] @ [(0, ExecuteTask sample_task)] @ []
       @ [(10, AddFailure sample_task scenario_failure)] @ [])
     ''T''
   = Inr \<lparr>d_name = ''T'', d_result = Some ''fail'',
          d_log = Some ''--err--\<newline>e1e3--out--\<newline>o1o3'',
          d_started = Some ''1970-01-01 00:00:00'', d_elapsed = Some 10\<rparr>"
proof -
  let ?cs = "[] @ [(0, StartTask sample_task)] @ [] @ [(0, ExecuteTask sample_task)] @ []
       @ [(10, AddFailure sample_task scenario_failure)] @ []"
  obtain s where run: "JsonReporter_run sample_utcstr ?cs JsonReporter_init = Inr s"
    by (simp add: eval_defs)
  from JsonReporter_executed_task_record [OF run, of sample_task "''fail''"]
  have "serialized sample_utcstr s (name sample_task) =
           Inr \<lparr>d_name = name sample_task, d_result = Some ''fail'',
                d_log = Some (log_template sample_task),
                d_started = Some (sample_utcstr 0), d_elapsed = Some (10 - 0)\<rparr>"
    by simp
  then show ?thesis using run
    by (simp add: run_and_serialize_def sample_task_def sample_utcstr_def log_template_def
        concat_captured_def)
qed

text \<open>
  Claim C1 as the specification words it asks for \<^verbatim>\<open>elapsed\<close> at least 0 on every such
  run. The two readings come from the wall clock \<^verbatim>\<open>time.time()\<close>, which can be set back:
  with the reading 10 at \<^verbatim>\<open>execute_task\<close> and 0 at \<^verbatim>\<open>add_success\<close> the record is
  serialized with \<^verbatim>\<open>elapsed\<close> equal to -10.
\<close>

theorem JsonReporter_elapsed_negative:
  "run_and_serialize sample_utcstr
     [(0, StartTask sample_task), (10, ExecuteTask sample_task), (0, AddSuccess sample_task)]
     ''T''
   = Inr \<lparr>d_name = ''T'', d_result = Some ''success'',
          d_log = Some ''--err--\<newline>e1e3--out--\<newline>o1o3'',
          d_started = Some ''1970-01-01 00:00:10'', d_elapsed = Some (- 10)\<rparr>
   \<and> \<not> (0::real) \<le> - 10"
  by (simp add: eval_defs)

lemma call_distinct:
  assumes "JsonReporter_call utcstr c s = Inr s'"
    and "distinct (map fst (t_results s))"
  shows "distinct (map fst (t_results s'))"
proof -
  obtain now ev where c: "c = (now, ev)" by (cases c)
  show ?thesis
  proof (cases ev)
    case CompleteRun
    with assms c obtain kvs' ds where "to_dicts utcstr (t_results s) = Inr (kvs', ds)"
      and "t_results s' = kvs'"
      by (auto simp: JsonReporter_defs split: sum.splits)
    with to_dicts_keys [OF this(1)] assms(2) show ?thesis by simp
  qed (use assms c in \<open>auto simp: JsonReporter_defs distinct_dict_setitem
        split: sum.splits\<close>)
qed

lemma run_distinct:
  assumes "JsonReporter_run utcstr cs s = Inr s'"
    and "distinct (map fst (t_results s))"
  shows "distinct (map fst (t_results s'))"
  using assms
proof (induction cs arbitrary: s)
  case Nil
  then show ?case by simp
next
  case (Cons c cs)
  from Cons.prems(1) obtain s1 where
    step: "JsonReporter_call utcstr c s = Inr s1" and
    rest: "JsonReporter_run utcstr cs s1 = Inr s'"
    by (auto split: sum.splits)
  from Cons.IH [OF rest call_distinct [OF step Cons.prems(2)]] show ?case .
qed

text \<open>
  Claim C5. After any run of lifecycle calls on a fresh JsonReporter that did not raise,
  no two records are stored under the same name. A further \<^verbatim>\<open>start_task\<close> keeps it so,
  leaves the fresh record of that name (no result, no log, no times) as the one found
  under the name, and, when the name was already present, leaves the set and order of
  names as it was: the earlier record is replaced, not joined by a second one.
\<close>

theorem JsonReporter_one_record_per_name:
  assumes run: "JsonReporter_run utcstr cs JsonReporter_init = Inr s"
  shows "distinct (map fst (t_results s))
       \<and> distinct (map fst (t_results (JsonReporter_start_task t s)))
       \<and> dict_getitem (t_results (JsonReporter_start_task t s)) (name t)
           = Inr (TaskResult_init (name t))
       \<and> (name t \<in> set (map fst (t_results s)) \<longrightarrow>
            map fst (t_results (JsonReporter_start_task t s)) = map fst (t_results s))"
proof -
  have "distinct (map fst (t_results JsonReporter_init))"
    by (simp add: JsonReporter_init_def)
  from run_distinct [OF run this] have d: "distinct (map fst (t_results s))" .
  then have "distinct (map fst (t_results (JsonReporter_start_task t s)))"
    by (simp add: JsonReporter_start_task_def distinct_dict_setitem)
  moreover have "name t \<in> set (map fst (t_results s)) \<longrightarrow>
            map fst (t_results (JsonReporter_start_task t s)) = map fst (t_results s)"
    by (simp add: JsonReporter_start_task_def map_fst_dict_setitem del: set_map)
  ultimately show ?thesis using d start_task_getitem by blast
qed

text \<open>
  The reporter that already holds a finished record for T is given \<^verbatim>\<open>start_task\<close> for T
  again.
\<close>

theorem JsonReporter_one_record_per_name_witness:
  "distinct (map fst (t_results sample_finished))
   \<and> ''T'' \<in> set (map fst (t_results sample_finished))
   \<and> dict_getitem (t_results (JsonReporter_start_task sample_task sample_finished)) ''T''
       = Inr (TaskResult_init ''T'')
   \<and> map fst (t_results (JsonReporter_start_task sample_task sample_finished)) = [''T'']"
proof -
  have k: "name sample_task \<in> set (map fst (t_results sample_finished))"
    "map fst (t_results sample_finished) = [''T'']" "name sample_task = ''T''"
    by (simp_all add: sample_task_def sample_finished_def)
  from JsonReporter_one_record_per_name [OF sample_run, of sample_task] k
  show ?thesis by simp
qed

text \<open>
  Claim C6. Take any run that contains \<^verbatim>\<open>start_task\<close> for a task, later
  \<^verbatim>\<open>skip_uptodate\<close> for it, and otherwise only calls that are not about this task's name
  after the \<^verbatim>\<open>start_task\<close> (so no \<^verbatim>\<open>execute_task\<close> for it). Then the serialized record of
  the task has \<^verbatim>\<open>started\<close> and \<^verbatim>\<open>elapsed\<close> null and the result up-to-date. If
  \<^verbatim>\<open>complete_run\<close> then succeeds, this dictionary is in the document.
\<close>

theorem JsonReporter_skipped_task_record:
  assumes run: "JsonReporter_run utcstr
       (pre @ [(n0, StartTask t)] @ mid @ [(n1, SkipUptodate t1)] @ post) s0 = Inr s"
    and t1: "name t1 = name t"
    and quiet: "silent_on (name t) mid" "silent_on (name t) post"
  shows "serialized utcstr s (name t) =
           Inr \<lparr>d_name = name t, d_result = Some ''up-to-date'',
                d_log = Some (log_template t1), d_started = None, d_elapsed = None\<rparr>
         \<and> (\<forall>s'. JsonReporter_complete_run utcstr s = Inr s' \<longrightarrow>
               \<lparr>d_name = name t, d_result = Some ''up-to-date'',
                d_log = Some (log_template t1), d_started = None, d_elapsed = None\<rparr>
               \<in> set (last (dumped s')))"
proof -
  from run obtain a b c d where
    a: "JsonReporter_run utcstr pre s0 = Inr a" and
    b: "JsonReporter_call utcstr (n0, StartTask t) a = Inr b" and
    c: "JsonReporter_run utcstr mid b = Inr c" and
    d: "JsonReporter_call utcstr (n1, SkipUptodate t1) c = Inr d" and
    s: "JsonReporter_run utcstr post d = Inr s"
    by (auto simp: run_append split: sum.splits)
  let ?n = "name t"
  let ?r0 = "TaskResult_init ?n"
  let ?r1 = "TaskResult_set_result n1 t1 ''up-to-date'' ?r0"
  let ?d = "\<lparr>d_name = name t, d_result = Some ''up-to-date'',
                d_log = Some (log_template t1), d_started = None, d_elapsed = None\<rparr>"
  from b have "dict_getitem (t_results b) ?n = Inr ?r0"
    using start_task_getitem [of t a] by simp
  from run_frame_fix [OF c quiet(1) this] have "dict_getitem (t_results c) ?n = Inr ?r0"
    by (simp add: TaskResult_init_def)
  with call_terminal_getitem [OF d, of t1 "''up-to-date''"] t1
  have "dict_getitem (t_results d) ?n = Inr ?r1"
    by simp
  from run_frame_fix [OF s quiet(2) this] have "dict_getitem (t_results s) ?n = Inr ?r1"
    by (simp add: TaskResult_init_def TaskResult_set_result_def)
  then have ser: "serialized utcstr s ?n = Inr ?d"
    by (simp add: serialized_def TaskResult_to_dict_def TaskResult_set_result_def
        TaskResult_init_def as_dict_def log_template_def join_captured_concat)
  then have "\<forall>s'. JsonReporter_complete_run utcstr s = Inr s' \<longrightarrow> ?d \<in> set (last (dumped s'))"
    using complete_run_document by blast
  with ser show ?thesis by simp
qed

text \<open>The sample task started and then skipped.\<close>

theorem JsonReporter_skipped_task_record_witness:
  "run_and_serialize sample_utcstr
     ([] @ [(0, StartTask sample_task)] @ [] @ [(10, SkipUptodate sample_task)] @ []) ''T''
   = Inr \<lparr>d_name = ''T'', d_result = Some ''up-to-date'',
          d_log = Some ''--err--\<newline>e1e3--out--\<newline>o1o3'',
          d_started = None, d_elapsed = None\<rparr>"
proof -
  let ?cs = "[] @ [(0, StartTask sample_task)] @ [] @ [(10, SkipUptodate sample_task)] @ []"
  obtain s where run: "JsonReporter_run sample_utcstr ?cs JsonReporter_init = Inr s"
    by (simp add: eval_defs)
  from JsonReporter_skipped_task_record [OF run]
  have "serialized sample_utcstr s (name sample_task) =
           Inr \<lparr>d_name = name sample_task, d_result = Some ''up-to-date'',
                d_log = Some (log_template sample_task), d_started = None, d_elapsed = None\<rparr>"
    by simp
  then show ?thesis using run
    by (simp add: run_and_serialize_def sample_task_def log_template_def
        concat_captured_def)
qed

text \<open>
  Claim C7. On a reporter that has received no call, \<^verbatim>\<open>complete_run\<close> returns normally
  in every strategy: ConsoleReporter and ExecutedOnlyReporter leave both channels empty
  (no failure digest), JsonReporter dumps one document, the empty array, and
  FakeReporter leaves its log empty. The console and fake strategies have no raising
  path in \<^verbatim>\<open>complete_run\<close> at all; for JsonReporter the result is a value, not an
  exception.
\<close>

theorem complete_run_on_empty_run:
  "ConsoleReporter_complete_run (ConsoleReporter_init so se) = ConsoleReporter_init so se
   \<and> stdout (ConsoleReporter_init so se) = [] \<and> stderr (ConsoleReporter_init so se) = []
   \<and> ExecutedOnlyReporter_complete_run (ConsoleReporter_init so se) = ConsoleReporter_init so se
   \<and> JsonReporter_complete_run utcstr JsonReporter_init
       = Inr (JsonReporter_init\<lparr>dumped := [[]]\<rparr>)
   \<and> FakeReporter_complete_run FakeReporter_init = FakeReporter_init
   \<and> fake_log FakeReporter_init = []"
  by (simp add: ConsoleReporter_complete_run_def ExecutedOnlyReporter_complete_run_def
      ConsoleReporter_init_def JsonReporter_complete_run_def JsonReporter_init_def
      FakeReporter_complete_run_def FakeReporter_init_def)

text \<open>
  Claim C8. When \<^verbatim>\<open>to_dict\<close> succeeds on a record, calling it again on the record as the
  first call left it gives the same dictionary and leaves the record as it is. When
  \<^verbatim>\<open>complete_run\<close> succeeds, a second \<^verbatim>\<open>complete_run\<close> on the resulting reporter succeeds
  too and dumps the same document again.
\<close>

theorem JsonReporter_serialization_repeatable:
  "(TaskResult_to_dict utcstr r = Inr (r', d) \<longrightarrow> TaskResult_to_dict utcstr r' = Inr (r', d))
   \<and> (JsonReporter_complete_run utcstr s = Inr s' \<longrightarrow>
        dumped s' = dumped s @ [last (dumped s')]
        \<and> JsonReporter_complete_run utcstr s' = Inr (s'\<lparr>dumped := dumped s' @ [last (dumped s')]\<rparr>))"
proof (intro conjI impI)
  assume "TaskResult_to_dict utcstr r = Inr (r', d)"
  then show "TaskResult_to_dict utcstr r' = Inr (r', d)" by (rule to_dict_idem)
next
  assume cr: "JsonReporter_complete_run utcstr s = Inr s'"
  then obtain kvs' ds where
    td: "to_dicts utcstr (t_results s) = Inr (kvs', ds)" and
    s': "s' = s\<lparr>t_results := kvs', dumped := dumped s @ [ds]\<rparr>"
    by (auto simp: JsonReporter_complete_run_def split: sum.splits)
  from s' show "dumped s' = dumped s @ [last (dumped s')]" by simp
  from to_dicts_idem [OF td] s'
  show "JsonReporter_complete_run utcstr s' = Inr (s'\<lparr>dumped := dumped s' @ [last (dumped s')]\<rparr>)"
    by (simp add: JsonReporter_complete_run_def)
qed

text \<open>The finished sample reporter, serialized twice.\<close>

theorem JsonReporter_serialization_repeatable_witness:
  "(case JsonReporter_complete_run sample_utcstr sample_finished of
      Inl e \<Rightarrow> False
    | Inr s' \<Rightarrow>
        dumped s' = [sample_document]
        \<and> map_sum id dumped (JsonReporter_complete_run sample_utcstr s')
            = Inr [sample_document, sample_document])"
proof -
  obtain s' where cr: "JsonReporter_complete_run sample_utcstr sample_finished = Inr s'"
    and d: "dumped s' = [sample_document]"
    by (simp add: eval_defs sample_finished_def sample_document_def)
  from JsonReporter_serialization_repeatable [of sample_utcstr _ _ _ sample_finished s'] cr
  have "JsonReporter_complete_run sample_utcstr s'
      = Inr (s'\<lparr>dumped := dumped s' @ [last (dumped s')]\<rparr>)"
    by blast
  with cr d show ?thesis by simp
qed

lemma call_never_started:
  assumes "JsonReporter_call utcstr c s = Inr s'"
    and "\<not> starts n (snd c)"
    and "n \<notin> set (map fst (t_results s))"
  shows "n \<notin> set (map fst (t_results s'))"
proof -
  obtain now ev where c: "c = (now, ev)" by (cases c)
  show ?thesis
  proof (cases ev)
    case CompleteRun
    with assms c obtain kvs' ds where "to_dicts utcstr (t_results s) = Inr (kvs', ds)"
      and "t_results s' = kvs'"
      by (auto simp: JsonReporter_defs split: sum.splits)
    with to_dicts_keys [OF this(1)] assms(3) show ?thesis by simp
  qed (use assms c in \<open>auto simp: JsonReporter_defs map_fst_dict_setitem
        simp del: set_map dest: dict_getitem_Inr_key split: sum.splits if_splits\<close>)
qed

lemma run_never_started:
  assumes "JsonReporter_run utcstr cs s = Inr s'"
    and "never_started n cs"
    and "n \<notin> set (map fst (t_results s))"
  shows "n \<notin> set (map fst (t_results s'))"
  using assms
proof (induction cs arbitrary: s)
  case Nil
  then show ?case by simp
next
  case (Cons c cs)
  from Cons.prems(1) obtain s1 where
    step: "JsonReporter_call utcstr c s = Inr s1" and
    rest: "JsonReporter_run utcstr cs s1 = Inr s'"
    by (auto split: sum.splits)
  from Cons.prems(2) have ns: "\<not> starts n (snd c)" "never_started n cs" by simp_all
  from Cons.IH [OF rest ns(2) call_never_started [OF step ns(1) Cons.prems(3)]]
  show ?case .
qed

text \<open>
  Claim C9. After any run on a fresh JsonReporter that did not raise and in which
  \<^verbatim>\<open>start_task\<close> was never called for a given name, each of \<^verbatim>\<open>execute_task\<close>,
  \<^verbatim>\<open>add_failure\<close>, \<^verbatim>\<open>add_success\<close> and \<^verbatim>\<open>skip_uptodate\<close> for a task of that name raises
  KeyError for the name.
\<close>

theorem JsonReporter_requires_start_task:
  assumes run: "JsonReporter_run utcstr cs JsonReporter_init = Inr s"
    and ns: "never_started (name t) cs"
  shows "JsonReporter_execute_task now t s = Inl (KeyError (name t))
       \<and> JsonReporter_add_failure now t e s = Inl (KeyError (name t))
       \<and> JsonReporter_add_success now t s = Inl (KeyError (name t))
       \<and> JsonReporter_skip_uptodate now t s = Inl (KeyError (name t))"
proof -
  have "name t \<notin> set (map fst (t_results JsonReporter_init))"
    by (simp add: JsonReporter_init_def)
  from run_never_started [OF run ns this]
  have "dict_getitem (t_results s) (name t) = Inl (KeyError (name t))"
    using dict_getitem_Inl [of "t_results s" "name t" "KeyError (name t)"] by simp
  then show ?thesis by (simp add: JsonReporter_defs)
qed

text \<open>
  The finished sample reporter knows T only; the four calls for a task named U raise.
\<close>

theorem JsonReporter_requires_start_task_witness:
  "never_started ''U'' [(0, StartTask sample_task), (0, ExecuteTask sample_task),
       (10, AddSuccess sample_task)]
   \<and> JsonReporter_execute_task 11 (sample_task\<lparr>name := ''U''\<rparr>) sample_finished
       = Inl (KeyError ''U'')
   \<and> JsonReporter_add_failure 11 (sample_task\<lparr>name := ''U''\<rparr>) scenario_failure sample_finished
       = Inl (KeyError ''U'')
   \<and> JsonReporter_add_success 11 (sample_task\<lparr>name := ''U''\<rparr>) sample_finished
       = Inl (KeyError ''U'')
   \<and> JsonReporter_skip_uptodate 11 (sample_task\<lparr>name := ''U''\<rparr>) sample_finished
       = Inl (KeyError ''U'')"
proof -
  have ns: "never_started (name (sample_task\<lparr>name := ''U''\<rparr>))
      [(0, StartTask sample_task), (0, ExecuteTask sample_task), (10, AddSuccess sample_task)]"
    by (simp add: sample_task_def)
  from JsonReporter_requires_start_task [OF sample_run ns, of 11 scenario_failure] ns
  show ?thesis by simp
qed

lemma call_pending:
  assumes "JsonReporter_call utcstr c s = Inr s'"
    and "event_name (snd c) \<noteq> Some n \<or> is_execute (snd c)"
    and "dict_getitem (t_results s) n = Inr r"
    and "finished_on r = None"
  shows "\<exists>r'. dict_getitem (t_results s') n = Inr r' \<and> finished_on r' = None
            \<and> (started_on r \<noteq> None \<longrightarrow> started_on r' \<noteq> None)"
proof (cases "event_name (snd c) = Some n")
  case False
  from call_frame [OF assms(1) False assms(3)] settle_fix [of r utcstr] assms(4)
  show ?thesis by auto
next
  case True
  with assms(2) obtain now t where c: "c = (now, ExecuteTask t)" "name t = n"
    by (cases c, cases "snd c") auto
  from call_execute_getitem [of utcstr now t s s' r] assms(1,3) c
  have "dict_getitem (t_results s') n = Inr (TaskResult_execute now r)" by simp
  with assms(4) show ?thesis by (simp add: TaskResult_execute_def)
qed

lemma run_pending:
  assumes "JsonReporter_run utcstr cs s = Inr s'"
    and "only_executes n cs"
    and "dict_getitem (t_results s) n = Inr r"
    and "finished_on r = None"
  shows "\<exists>r'. dict_getitem (t_results s') n = Inr r' \<and> finished_on r' = None
            \<and> (started_on r \<noteq> None \<longrightarrow> started_on r' \<noteq> None)"
  using assms
proof (induction cs arbitrary: s r)
  case Nil
  then show ?case by simp
next
  case (Cons c cs)
  from Cons.prems(1) obtain s1 where
    step: "JsonReporter_call utcstr c s = Inr s1" and
    rest: "JsonReporter_run utcstr cs s1 = Inr s'"
    by (auto split: sum.splits)
  from Cons.prems(2) have oe: "event_name (snd c) \<noteq> Some n \<or> is_execute (snd c)"
    "only_executes n cs" by simp_all
  from call_pending [OF step oe(1) Cons.prems(3,4)] obtain r1 where
    r1: "dict_getitem (t_results s1) n = Inr r1" "finished_on r1 = None"
        "started_on r \<noteq> None \<longrightarrow> started_on r1 \<noteq> None"
    by blast
  from Cons.IH [OF rest oe(2) r1(1,2)] r1(3) show ?case by blast
qed

text \<open>
  Claim C10, as the code has it. Take any run that did not raise and that contains
  \<^verbatim>\<open>start_task\<close> for a task and later \<^verbatim>\<open>execute_task\<close> for it, where every other call
  about this task's name after the \<^verbatim>\<open>start_task\<close> is \<^verbatim>\<open>execute_task\<close> again: no terminal
  call and no new \<^verbatim>\<open>start_task\<close> for the name. Then \<^verbatim>\<open>complete_run\<close> raises TypeError and
  dumps nothing: \<^verbatim>\<open>to_dict\<close> subtracts the start time from a finish time that is still
  \<^verbatim>\<open>None\<close>.
\<close>

theorem JsonReporter_unfinished_task_raises:
  assumes run: "JsonReporter_run utcstr
       (pre @ [(n0, StartTask t)] @ mid1 @ [(te, ExecuteTask t1)] @ mid2) s0 = Inr s"
    and t1: "name t1 = name t"
    and pend: "only_executes (name t) mid1" "only_executes (name t) mid2"
  shows "JsonReporter_complete_run utcstr s = Inl TypeError"
proof -
  from run obtain a b c d where
    a: "JsonReporter_run utcstr pre s0 = Inr a" and
    b: "JsonReporter_call utcstr (n0, StartTask t) a = Inr b" and
    c: "JsonReporter_run utcstr mid1 b = Inr c" and
    d: "JsonReporter_call utcstr (te, ExecuteTask t1) c = Inr d" and
    s: "JsonReporter_run utcstr mid2 d = Inr s"
    by (auto simp: run_append split: sum.splits)
  let ?n = "name t"
  from b have "dict_getitem (t_results b) ?n = Inr (TaskResult_init ?n)"
    using start_task_getitem [of t a] by simp
  from run_pending [OF c pend(1) this] obtain r1 where
    r1: "dict_getitem (t_results c) ?n = Inr r1" "finished_on r1 = None"
    by (auto simp: TaskResult_init_def)
  from call_execute_getitem [OF d] r1(1) t1
  have "dict_getitem (t_results d) ?n = Inr (TaskResult_execute te r1)" by simp
  from run_pending [OF s pend(2) this] r1(2) obtain r2 st where
    r2: "dict_getitem (t_results s) ?n = Inr r2" "finished_on r2 = None"
        "started_on r2 = Some st"
    by (auto simp: TaskResult_execute_def)
  from to_dicts_TypeError [OF dict_getitem_Inr_mem [OF r2(1)] r2(3,2)]
  show ?thesis by (simp add: JsonReporter_complete_run_def)
qed

text \<open>
  The sample task started and executed twice, with a cleanup error announced, but never
  finished.
\<close>

theorem JsonReporter_unfinished_task_raises_witness:
  "only_executes ''T'' [(1, ExecuteTask sample_task), (2, CleanupError scenario_failure)]
   \<and> map_sum id t_results (JsonReporter_run sample_utcstr
       ([] @ [(0, StartTask sample_task)] @ [] @ [(0, ExecuteTask sample_task)]
         @ [(1, ExecuteTask sample_task), (2, CleanupError scenario_failure)])
       JsonReporter_init)
     = Inr [(''T'', (TaskResult_init ''T'')\<lparr>started_on := Some 1\<rparr>)]
   \<and> JsonReporter_complete_run sample_utcstr
       \<lparr>t_results = [(''T'', (TaskResult_init ''T'')\<lparr>started_on := Some 1\<rparr>)], dumped = []\<rparr>
     = Inl TypeError"
proof -
  let ?mid2 = "[(1, ExecuteTask sample_task), (2, CleanupError scenario_failure)]"
  let ?s = "\<lparr>t_results = [(''T'', (TaskResult_init ''T'')\<lparr>started_on := Some 1\<rparr>)],
             dumped = []\<rparr>"
  have run: "JsonReporter_run sample_utcstr
       ([] @ [(0, StartTask sample_task)] @ [] @ [(0, ExecuteTask sample_task)] @ ?mid2)
       JsonReporter_init = Inr ?s"
    by (simp add: eval_defs)
  have oe: "only_executes (name sample_task) []" "only_executes (name sample_task) ?mid2"
    by (simp_all add: sample_task_def)
  from JsonReporter_unfinished_task_raises [OF run _ oe] run oe(2)
  show ?thesis by (simp add: sample_task_def)
qed

text \<open>
  Claim C10 as the specification words it asks for the exception whenever a task
  received \<^verbatim>\<open>execute_task\<close> and no terminal call. A second \<^verbatim>\<open>start_task\<close> for the name
  replaces the record by a fresh one that has no start time: after \<^verbatim>\<open>start_task\<close>,
  \<^verbatim>\<open>execute_task\<close>, \<^verbatim>\<open>start_task\<close> for the sample task, \<^verbatim>\<open>complete_run\<close> returns normally and
  dumps a document whose one record has every field but the name null.
\<close>

theorem JsonReporter_restarted_task_is_serialized:
  "JsonReporter_run sample_utcstr
     [(0, StartTask sample_task), (1, ExecuteTask sample_task), (2, StartTask sample_task),
      (3, CompleteRun)]
     JsonReporter_init
   = Inr \<lparr>t_results = [(''T'', TaskResult_init ''T'')],
          dumped = [[\<lparr>d_name = ''T'', d_result = None, d_log = None,
                      d_started = None, d_elapsed = None\<rparr>]]\<rparr>"
  by (simp add: eval_defs)

end
